theory Spec2Isabelle
  imports Main
begin

section \<open>Strings\<close>

text \<open>
  JavaScript strings are modelled as \<open>string\<close>: sequences of 8-bit code units, that is the
  Latin-1 range of the UTF-16 code units of the source. On that range
  \<^verbatim>\<open>String.prototype.toLowerCase\<close> maps \<open>A\<close>..\<open>Z\<close> (65..90) and the accented capitals
  192..222 except the multiplication sign 215 to the code unit 32 above, and leaves every
  other code unit as it is. Adding 32 to such a code unit sets bit 5, which is clear.
\<close>

definition toLowerCase_char :: "char \<Rightarrow> char" where
  "toLowerCase_char c =
     (let n = (of_char c :: nat)
      in if (65 \<le> n \<and> n \<le> 90) \<or> (192 \<le> n \<and> n \<le> 222 \<and> n \<noteq> 215)
         then (case c of Char b0 b1 b2 b3 b4 b5 b6 b7 \<Rightarrow> Char b0 b1 b2 b3 b4 True b6 b7)
         else c)"

definition toLowerCase :: "string \<Rightarrow> string" where
  "toLowerCase s = map toLowerCase_char s"

fun startsWith :: "string \<Rightarrow> string \<Rightarrow> bool" where
  "startsWith s [] = True"
| "startsWith [] (c # t) = False"
| "startsWith (a # s) (c # t) = (a = c \<and> startsWith s t)"

text \<open>\<^verbatim>\<open>s.includes(t)\<close>: \<open>t\<close> occurs in \<open>s\<close> as a contiguous run of code units.\<close>

fun str_includes :: "string \<Rightarrow> string \<Rightarrow> bool" where
  "str_includes [] t = (t = [])"
| "str_includes (a # s) t = (startsWith (a # s) t \<or> str_includes s t)"

text \<open>
  A value that is either \<^verbatim>\<open>undefined\<close> (\<open>None\<close>) or a string. It is truthy when it is a
  non-empty string; \<^verbatim>\<open>x || ''\<close> is the string itself when truthy and the empty string
  otherwise; a template literal renders \<^verbatim>\<open>undefined\<close> as the word.
\<close>

fun truthy :: "string option \<Rightarrow> bool" where
  "truthy None = False"
| "truthy (Some s) = (s \<noteq> [])"

fun or_empty :: "string option \<Rightarrow> string" where
  "or_empty None = []"
| "or_empty (Some s) = (if s \<noteq> [] then s else [])"

fun to_string :: "string option \<Rightarrow> string" where
  "to_string None = ''undefined''"
| "to_string (Some s) = s"


section \<open>Provider table: \<^verbatim>\<open>getImapConfig\<close>\<close>

record imap_config =
  cfg_user :: string
  cfg_password :: string
  cfg_host :: string
  cfg_port :: nat
  cfg_tls :: bool
  cfg_rejectUnauthorized :: bool
  cfg_authTimeout :: nat
  cfg_connTimeout :: nat

text \<open>The own properties of the object literal \<^verbatim>\<open>configs\<close>, in source order.\<close>

definition configs :: "string \<Rightarrow> string \<Rightarrow> (string \<times> imap_config) list" where
  "configs username password =
    [(''gmail'',
       \<lparr>cfg_user = username, cfg_password = password, cfg_host = ''imap.gmail.com'',
        cfg_port = 993, cfg_tls = True, cfg_rejectUnauthorized = False,
        cfg_authTimeout = 15000, cfg_connTimeout = 15000\<rparr>),
     (''outlook'',
       \<lparr>cfg_user = username, cfg_password = password, cfg_host = ''outlook.office365.com'',
        cfg_port = 993, cfg_tls = True, cfg_rejectUnauthorized = False,
        cfg_authTimeout = 15000, cfg_connTimeout = 15000\<rparr>),
     (''yahoo'',
       \<lparr>cfg_user = username, cfg_password = password, cfg_host = ''imap.mail.yahoo.com'',
        cfg_port = 993, cfg_tls = True, cfg_rejectUnauthorized = False,
        cfg_authTimeout = 15000, cfg_connTimeout = 15000\<rparr>)]"

text \<open>
  \<^verbatim>\<open>configs[key]\<close> is a property read on an ordinary object: a key that is not an own
  property is looked up on \<^verbatim>\<open>Object.prototype\<close>, whose members are listed here. Each of
  them is a function or an object, hence truthy.
\<close>

definition Object_prototype :: "string list" where
  "Object_prototype =
    [''constructor'', ''__defineGetter__'', ''__defineSetter__'', ''hasOwnProperty'',
     ''__lookupGetter__'', ''__lookupSetter__'', ''isPrototypeOf'', ''propertyIsEnumerable'',
     ''toString'', ''valueOf'', ''__proto__'', ''toLocaleString'']"

datatype property = Own imap_config | Inherited string

text \<open>\<open>None\<close> is \<^verbatim>\<open>undefined\<close>, the only falsy result of the lookup.\<close>

definition getImapConfig :: "string \<Rightarrow> string \<Rightarrow> string \<Rightarrow> property option" where
  "getImapConfig provider username password =
     (let key = toLowerCase provider
      in case map_of (configs username password) key of
           Some c \<Rightarrow> Some (Own c)
         | None \<Rightarrow> if key \<in> set Object_prototype then Some (Inherited key) else None)"


section \<open>The parsed message and the normalized output\<close>

text \<open>
  What \<^verbatim>\<open>simpleParser\<close> hands to its callback. \<open>parsed_from\<close> and \<open>parsed_to\<close> hold the
  \<^verbatim>\<open>text\<close> member of the address object when the header is there. \<open>parsed_date\<close> holds the
  time value (milliseconds since the epoch) of the \<^verbatim>\<open>Date\<close> object the parser produced for
  the header; the parser leaves the field out when the message has no date header, and
  a \<^verbatim>\<open>Date\<close> object it hands over is a valid one (the callback tests the field for
  presence only). \<open>parsed_html\<close> is \<open>None\<close> for \<^verbatim>\<open>false\<close> or \<^verbatim>\<open>undefined\<close>.
\<close>

record parsed_mail =
  parsed_subject :: "string option"
  parsed_from :: "string option"
  parsed_to :: "string option"
  parsed_date :: "int option"
  parsed_html :: "string option"
  parsed_text :: "string option"

text \<open>\<open>ISOString t\<close> stands for the string \<^verbatim>\<open>new Date(t).toISOString()\<close>.\<close>

datatype isostring = ISOString int

record email =
  email_subject :: string
  email_from :: string
  email_to :: string
  email_date :: isostring
  email_html :: string
  email_text :: string

text \<open>The template literal of the plain-text fallback, split at its one interpolation.\<close>

definition template_head :: string where
  \<open>template_head =
     ''<!DOCTYPE html>\<newline><html>\<newline><head><meta charset="UTF-8"></head>\<newline>'' @
     ''<body style="font-family: Arial, sans-serif; padding: 20px; line-height: 1.6;">\<newline>'' @
     ''<pre style="white-space: pre-wrap;">''\<close>

definition template_tail :: string where
  "template_tail = ''</pre>\<newline></body>\<newline></html>''"

definition template :: "string option \<Rightarrow> string" where
  "template text = template_head @ to_string text @ template_tail"

text \<open>
  The body of the parser callback between the error check and the assignment to
  \<^verbatim>\<open>foundEmail\<close>; \<open>now\<close> is the clock read by \<^verbatim>\<open>new Date()\<close>.
\<close>

definition htmlContent :: "parsed_mail \<Rightarrow> string" where
  "htmlContent parsed =
     (let h = or_empty (parsed_html parsed)
      in if h = [] \<and> truthy (parsed_text parsed) then template (parsed_text parsed) else h)"

definition buildEmail :: "int \<Rightarrow> parsed_mail \<Rightarrow> email" where
  "buildEmail now parsed =
     \<lparr>email_subject = or_empty (parsed_subject parsed),
      email_from = (case parsed_from parsed of Some t \<Rightarrow> t | None \<Rightarrow> []),
      email_to = (case parsed_to parsed of Some t \<Rightarrow> t | None \<Rightarrow> []),
      email_date = (case parsed_date parsed of Some d \<Rightarrow> ISOString d | None \<Rightarrow> ISOString now),
      email_html = htmlContent parsed,
      email_text = or_empty (parsed_text parsed)\<rparr>"


section \<open>The session: \<^verbatim>\<open>fetchEmailBySubjectOptimized\<close>\<close>

text \<open>
  The function builds a promise around one IMAP connection and registers callbacks; the
  IMAP client and the MIME parser are the environment. A session is the state the callbacks
  close over, and each run of a callback by the event loop is one step. An error object is
  modelled by its \<^verbatim>\<open>message\<close>.
\<close>

datatype 'a promise = Pending | Fulfilled 'a | Rejected string

text \<open>
  The calls made on the IMAP client: \<^verbatim>\<open>connect()\<close>, \<^verbatim>\<open>openBox(name, readOnly, cb)\<close>,
  \<^verbatim>\<open>search(['ALL', ['SUBJECT', s]], cb)\<close>, \<^verbatim>\<open>fetch(uid, {bodies: '', markSeen: false})\<close>
  and \<^verbatim>\<open>end()\<close>.
\<close>

datatype imap_call = Connect | OpenBox string bool | Search string | Fetch nat | End

text \<open>
  \<open>timeout\<close> is the delay of the pending inner timer, \<open>None\<close> once it was cleared or has
  fired. \<open>on_ready\<close>, \<open>on_error\<close>, \<open>on_end\<close> and \<open>f_on_error\<close> tell whether the listener
  registered with \<^verbatim>\<open>once\<close> is still there; \<open>openBox_cb\<close> and \<open>search_cb\<close> whether the callback
  passed to the call is outstanding; \<open>f_on_message\<close> whether the fetch object exists with
  its \<^verbatim>\<open>message\<close> listener. \<open>calls\<close> logs the calls made on the client, oldest first.
\<close>

record session =
  imapConfig :: property
  searchSubject :: string
  foundEmail :: "email option"
  timeout :: "nat option"
  settled :: "email option promise"
  on_ready :: bool
  on_error :: bool
  on_end :: bool
  openBox_cb :: bool
  search_cb :: bool
  f_on_message :: bool
  f_on_error :: bool
  calls :: "imap_call list"

definition inner_timeout_ms :: nat where
  "inner_timeout_ms = 85000"

text \<open>Settling a promise has an effect only while it is pending.\<close>

definition resolve :: "email option \<Rightarrow> session \<Rightarrow> session" where
  "resolve v s = (case settled s of Pending \<Rightarrow> s\<lparr>settled := Fulfilled v\<rparr> | _ \<Rightarrow> s)"

definition reject :: "string \<Rightarrow> session \<Rightarrow> session" where
  "reject m s = (case settled s of Pending \<Rightarrow> s\<lparr>settled := Rejected m\<rparr> | _ \<Rightarrow> s)"

definition clearTimeout :: "session \<Rightarrow> session" where
  "clearTimeout s = s\<lparr>timeout := None\<rparr>"

definition imap :: "imap_call \<Rightarrow> session \<Rightarrow> session" where
  "imap c s = s\<lparr>calls := calls s @ [c]\<rparr>"

text \<open>The synchronous part of the executor: timer set, listeners registered, connect.\<close>

definition fetchEmailBySubjectOptimized :: "property \<Rightarrow> string \<Rightarrow> session" where
  "fetchEmailBySubjectOptimized cfg subj =
     \<lparr>imapConfig = cfg, searchSubject = subj, foundEmail = None,
      timeout = Some inner_timeout_ms, settled = Pending,
      on_ready = True, on_error = True, on_end = True,
      openBox_cb = False, search_cb = False, f_on_message = False, f_on_error = False,
      calls = [Connect]\<rparr>"

text \<open>
  The callbacks the event loop can run. A callback of the client carries what the client
  passes: an error (\<open>Inl\<close>) or the result (\<open>Inr\<close>): the total of \<^verbatim>\<open>box.messages\<close>, the
  identifiers found. \<open>ParserCb\<close> is the callback of \<^verbatim>\<open>simpleParser\<close>, reached through the
  \<^verbatim>\<open>message\<close> and \<^verbatim>\<open>body\<close> listeners of the fetch. \<open>TimeoutFired\<close> and \<open>RaceTimeoutFired\<close>
  are the inner timer and the timer of the route handler becoming due.
\<close>

datatype event =
    Ready
  | OpenBoxCb "string + nat"
  | SearchCb "string + nat list"
  | ParserCb "string + parsed_mail"
  | FetchError string
  | ImapError string
  | ImapEnd
  | TimeoutFired
  | RaceTimeoutFired

definition on_openBox :: "string + nat \<Rightarrow> session \<Rightarrow> session" where
  "on_openBox r s =
     (case r of
        Inl err \<Rightarrow> reject err (clearTimeout s)
      | Inr messages_total \<Rightarrow>
          if messages_total = 0 then resolve None (imap End (clearTimeout s))
          else (imap (Search (searchSubject s)) s)\<lparr>search_cb := True\<rparr>)"

definition on_search :: "string + nat list \<Rightarrow> session \<Rightarrow> session" where
  "on_search r s =
     (case r of
        Inl err \<Rightarrow> reject err (clearTimeout s)
      | Inr results \<Rightarrow>
          if length results = 0 then resolve None (imap End (clearTimeout s))
          else (let targetUid = results ! (length results - 1)
                in (imap (Fetch targetUid) s)\<lparr>f_on_message := True, f_on_error := True\<rparr>))"

definition on_parsed :: "int \<Rightarrow> string + parsed_mail \<Rightarrow> session \<Rightarrow> session" where
  "on_parsed now r s =
     (case r of
        Inl err \<Rightarrow> reject err (clearTimeout s)
      | Inr parsed \<Rightarrow> imap End (clearTimeout (s\<lparr>foundEmail := Some (buildEmail now parsed)\<rparr>)))"

definition on_imap_error :: "string \<Rightarrow> session \<Rightarrow> session" where
  "on_imap_error err s =
     (let s1 = clearTimeout s
      in if str_includes err ''Invalid credentials'' \<or> str_includes err ''LOGIN failed''
         then reject ''LOGIN failed - Invalid credentials or App Password required'' s1
         else reject err s1)"

definition on_timeout :: "session \<Rightarrow> session" where
  "on_timeout s =
     (if foundEmail s = None then reject ''Search timeout'' (imap End s) else s)"

text \<open>
  One callback run. A callback that is not registered (or a timer that is not pending)
  does not run, and the session stays as it is.
\<close>

fun session_step :: "int \<Rightarrow> event \<Rightarrow> session \<Rightarrow> session" where
  "session_step now Ready s =
     (if on_ready s
      then (imap (OpenBox ''INBOX'' True) s)\<lparr>on_ready := False, openBox_cb := True\<rparr>
      else s)"
| "session_step now (OpenBoxCb r) s =
     (if openBox_cb s then on_openBox r (s\<lparr>openBox_cb := False\<rparr>) else s)"
| "session_step now (SearchCb r) s =
     (if search_cb s then on_search r (s\<lparr>search_cb := False\<rparr>) else s)"
| "session_step now (ParserCb r) s =
     (if f_on_message s then on_parsed now r s else s)"
| "session_step now (FetchError err) s =
     (if f_on_error s then reject err (clearTimeout (s\<lparr>f_on_error := False\<rparr>)) else s)"
| "session_step now (ImapError err) s =
     (if on_error s then on_imap_error err (s\<lparr>on_error := False\<rparr>) else s)"
| "session_step now ImapEnd s =
     (if on_end s then resolve (foundEmail s) (clearTimeout (s\<lparr>on_end := False\<rparr>)) else s)"
| "session_step now TimeoutFired s =
     (case timeout s of None \<Rightarrow> s | Some d \<Rightarrow> on_timeout (s\<lparr>timeout := None\<rparr>))"
| "session_step now RaceTimeoutFired s = s"


section \<open>The route handler: \<^verbatim>\<open>app.post('/fetch-email')\<close>\<close>

text \<open>
  The four fields the handler reads from the JSON body, each absent or a string, as the
  usage text of the root endpoint documents them.
\<close>

record request_body =
  body_provider :: "string option"
  body_username :: "string option"
  body_password :: "string option"
  body_subject :: "string option"

text \<open>\<open>ToFixed2 ms\<close> stands for the string \<^verbatim>\<open>(ms / 1000).toFixed(2)\<close>.\<close>

datatype fixed2 = ToFixed2 int

text \<open>
  A response: the status and the members of the JSON object sent, \<open>None\<close> for a member
  that the object does not have. \<open>resp_meta_duration_seconds\<close> is
  \<^verbatim>\<open>meta.duration_seconds\<close>, \<open>resp_duration_seconds\<close> the top-level \<^verbatim>\<open>duration_seconds\<close>.
\<close>

record response =
  resp_status :: nat
  resp_success :: bool
  resp_data :: "email option"
  resp_meta_duration_seconds :: "fixed2 option"
  resp_error :: "string option"
  resp_message :: "string option"
  resp_help :: "string option"
  resp_duration_seconds :: "fixed2 option"

definition missing_fields_response :: response where
  "missing_fields_response =
     \<lparr>resp_status = 400, resp_success = False, resp_data = None,
      resp_meta_duration_seconds = None, resp_error = Some ''Missing required fields'',
      resp_message = None, resp_help = None, resp_duration_seconds = None\<rparr>"

definition invalid_provider_response :: response where
  "invalid_provider_response =
     \<lparr>resp_status = 400, resp_success = False, resp_data = None,
      resp_meta_duration_seconds = None, resp_error = Some ''Invalid provider'',
      resp_message = None, resp_help = None, resp_duration_seconds = None\<rparr>"

definition success_response :: "email \<Rightarrow> fixed2 \<Rightarrow> response" where
  "success_response e duration =
     \<lparr>resp_status = 200, resp_success = True, resp_data = Some e,
      resp_meta_duration_seconds = Some duration, resp_error = None,
      resp_message = None, resp_help = None, resp_duration_seconds = None\<rparr>"

definition not_found_response :: "string option \<Rightarrow> response" where
  \<open>not_found_response subject =
     \<lparr>resp_status = 404, resp_success = False, resp_data = None,
      resp_meta_duration_seconds = None, resp_error = Some ''Email not found'',
      resp_message = Some (''No email with subject containing: "'' @ to_string subject @ ''"''),
      resp_help = None, resp_duration_seconds = None\<rparr>\<close>

definition timeout_response :: "fixed2 \<Rightarrow> response" where
  "timeout_response duration =
     \<lparr>resp_status = 408, resp_success = False, resp_data = None,
      resp_meta_duration_seconds = None, resp_error = Some ''Request timeout'',
      resp_message = Some ''Email search took too long. Try a more specific subject.'',
      resp_help = None, resp_duration_seconds = Some duration\<rparr>"

definition auth_help :: "string option \<Rightarrow> string" where
  "auth_help provider =
     ''Check your credentials. '' @
     (if provider = Some ''gmail''
      then ''Gmail requires App Password: https://myaccount.google.com/apppasswords''
      else if provider = Some ''outlook''
      then ''Outlook requires App Password: https://account.microsoft.com/security''
      else [])"

definition auth_failed_response :: "string option \<Rightarrow> response" where
  "auth_failed_response provider =
     \<lparr>resp_status = 401, resp_success = False, resp_data = None,
      resp_meta_duration_seconds = None, resp_error = Some ''Authentication failed'',
      resp_message = None, resp_help = Some (auth_help provider),
      resp_duration_seconds = None\<rparr>"

definition error_response :: "string \<Rightarrow> response" where
  "error_response m =
     \<lparr>resp_status = 500, resp_success = False, resp_data = None,
      resp_meta_duration_seconds = None, resp_error = Some m,
      resp_message = None, resp_help = None, resp_duration_seconds = None\<rparr>"

text \<open>The \<^verbatim>\<open>catch\<close> block, for an error with message \<open>m\<close>.\<close>

definition catch_error :: "request_body \<Rightarrow> fixed2 \<Rightarrow> string \<Rightarrow> response" where
  "catch_error b duration m =
     (if str_includes m ''timeout'' then timeout_response duration
      else if str_includes m ''LOGIN failed'' \<or> str_includes m ''Invalid credentials''
      then auth_failed_response (body_provider b)
      else error_response m)"

text \<open>The code after the \<^verbatim>\<open>await\<close>, for the value \<open>v\<close> the race was fulfilled with.\<close>

definition after_await :: "request_body \<Rightarrow> fixed2 \<Rightarrow> email option \<Rightarrow> response" where
  "after_await b duration v =
     (case v of
        Some e \<Rightarrow> success_response e duration
      | None \<Rightarrow> not_found_response (body_subject b))"

text \<open>
  A request that is waiting for the race. \<open>race_timer\<close> is the delay of the pending timer of
  the second promise of the race, \<open>None\<close> once it has fired and rejected that promise;
  \<open>race\<close> is the promise \<^verbatim>\<open>Promise.race\<close> returned; \<open>response\<close> is the response sent.
\<close>

record request_state =
  body :: request_body
  startTime :: int
  sess :: session
  race_timer :: "nat option"
  race :: "email option promise"
  response :: "response option"

definition race_timeout_ms :: nat where
  "race_timeout_ms = 90000"

datatype handled = Responded response | Awaiting request_state

text \<open>
  The handler up to the \<^verbatim>\<open>await\<close>; \<open>t\<close> is the clock read into \<^verbatim>\<open>startTime\<close>. Either a
  response is sent at once and nothing else happens, or the session is started and the
  race timer set.
\<close>

definition post_fetch_email :: "int \<Rightarrow> request_body \<Rightarrow> handled" where
  "post_fetch_email t b =
     (if \<not> truthy (body_provider b) \<or> \<not> truthy (body_username b)
         \<or> \<not> truthy (body_password b) \<or> \<not> truthy (body_subject b)
      then Responded missing_fields_response
      else case getImapConfig (to_string (body_provider b)) (to_string (body_username b))
                  (to_string (body_password b)) of
             None \<Rightarrow> Responded invalid_provider_response
           | Some cfg \<Rightarrow>
               Awaiting
                 \<lparr>body = b, startTime = t,
                  sess = fetchEmailBySubjectOptimized cfg (to_string (body_subject b)),
                  race_timer = Some race_timeout_ms, race = Pending, response = None\<rparr>)"

text \<open>
  The state of the timer promise, and \<^verbatim>\<open>Promise.race\<close> of the session promise and the
  timer promise: once settled it stays; otherwise it takes the state of the first of the
  two, in array order, that is settled.
\<close>

definition timer_promise :: "nat option \<Rightarrow> email option promise" where
  "timer_promise tm =
     (case tm of Some d \<Rightarrow> Pending | None \<Rightarrow> Rejected ''Search timeout - taking too long'')"

definition promise_race ::
  "email option promise \<Rightarrow> email option promise \<Rightarrow> email option promise \<Rightarrow> email option promise"
where
  "promise_race r p1 p2 =
     (case r of Pending \<Rightarrow> (case p1 of Pending \<Rightarrow> p2 | _ \<Rightarrow> p1) | _ \<Rightarrow> r)"

text \<open>
  The continuation of the handler, run when the race is settled; \<open>now\<close> is the clock read
  by \<^verbatim>\<open>Date.now()\<close> there.
\<close>

definition respond :: "request_body \<Rightarrow> int \<Rightarrow> int \<Rightarrow> email option promise \<Rightarrow> response option" where
  "respond b t now r =
     (case r of
        Pending \<Rightarrow> None
      | Fulfilled v \<Rightarrow> Some (after_await b (ToFixed2 (now - t)) v)
      | Rejected m \<Rightarrow> Some (catch_error b (ToFixed2 (now - t)) m))"

text \<open>
  One turn of the event loop: the callback runs, then the promise reactions it caused run
  to completion before the next callback, so the race and the handler's continuation
  follow in the same step. The continuation runs when the race, pending before, is
  settled. \<open>now\<close> is the clock during the turn.
\<close>

definition request_step :: "int \<Rightarrow> event \<Rightarrow> request_state \<Rightarrow> request_state" where
  "request_step now ev st =
     (let s' = session_step now ev (sess st);
          tm' = (if ev = RaceTimeoutFired then None else race_timer st);
          r' = promise_race (race st) (settled s') (timer_promise tm')
      in st\<lparr>sess := s', race_timer := tm', race := r',
            response := (case race st of
                           Pending \<Rightarrow> respond (body st) (startTime st) now r'
                         | _ \<Rightarrow> response st)\<rparr>)"

fun run :: "request_state \<Rightarrow> (int \<times> event) list \<Rightarrow> request_state" where
  "run st [] = st"
| "run st ((now, ev) # evs) = run (request_step now ev st) evs"


section \<open>Consistency of the state of a request\<close>

text \<open>
  While the inner timer is pending, the session promise is pending and no message is
  recorded; while the session promise is pending, the \<^verbatim>\<open>end\<close> and \<^verbatim>\<open>error\<close> listeners are
  still registered.
\<close>

definition session_inv :: "session \<Rightarrow> bool" where
  "session_inv s \<longleftrightarrow>
     (timeout s \<noteq> None \<longrightarrow> settled s = Pending \<and> foundEmail s = None) \<and>
     (settled s = Pending \<longrightarrow> on_end s \<and> on_error s)"

text \<open>
  While the race is pending, so are both of its promises; and a response has been sent
  exactly when the race is settled.
\<close>

definition request_inv :: "request_state \<Rightarrow> bool" where
  "request_inv st \<longleftrightarrow>
     session_inv (sess st) \<and>
     (race st = Pending \<longrightarrow>
        settled (sess st) = Pending \<and> race_timer st = Some race_timeout_ms) \<and>
     (response st = None \<longleftrightarrow> race st = Pending)"


text \<open>
  A search is issued only by the callback of \<^verbatim>\<open>openBox\<close>, and that callback exists only
  after the \<^verbatim>\<open>ready\<close> listener has run: while either is still to come, no search has been
  issued; once both are gone without a search, none is issued any more.
\<close>

fun is_search :: "imap_call \<Rightarrow> bool" where
  "is_search (Search subj) = True"
| "is_search c = False"

definition search_inv :: "session \<Rightarrow> bool" where
  "search_inv s \<longleftrightarrow>
     (openBox_cb s \<longrightarrow> \<not> on_ready s) \<and>
     (on_ready s \<or> openBox_cb s \<longrightarrow> filter is_search (calls s) = [])"

definition never_searched :: "session \<Rightarrow> bool" where
  "never_searched s \<longleftrightarrow>
     \<not> on_ready s \<and> \<not> openBox_cb s \<and> filter is_search (calls s) = []"


section \<open>Example requests\<close>

definition ex_body :: request_body where
  "ex_body =
     \<lparr>body_provider = Some ''gmail'', body_username = Some ''user@gmail.com'',
      body_password = Some ''app-password'', body_subject = Some ''Invoice #2024''\<rparr>"

definition ex_start :: request_state where
  "ex_start =
     \<lparr>body = ex_body, startTime = 0,
      sess = fetchEmailBySubjectOptimized
               (Own \<lparr>cfg_user = ''user@gmail.com'', cfg_password = ''app-password'',
                     cfg_host = ''imap.gmail.com'', cfg_port = 993, cfg_tls = True,
                     cfg_rejectUnauthorized = False, cfg_authTimeout = 15000,
                     cfg_connTimeout = 15000\<rparr>)
               ''Invoice #2024'',
      race_timer = Some race_timeout_ms, race = Pending, response = None\<rparr>"

text \<open>The connection is ready and the inbox, with 120 messages, is open.\<close>

definition ex_opened :: "(int \<times> event) list" where
  "ex_opened = [(40, Ready), (95, OpenBoxCb (Inr 120))]"

text \<open>The search has returned three identifiers.\<close>

definition ex_searched :: "(int \<times> event) list" where
  "ex_searched = ex_opened @ [(310, SearchCb (Inr [5, 12, 41]))]"


text \<open>The server closes the connection right after the login.\<close>

definition ex_dropped :: "(int \<times> event) list" where
  "ex_dropped = [(40, Ready), (60, ImapEnd)]"

text \<open>A plain-text message with markup in its text, and a message with nothing but a subject.\<close>

definition ex_parsed_plain :: parsed_mail where
  "ex_parsed_plain =
     \<lparr>parsed_subject = Some ''Invoice #2024 - March'',
      parsed_from = Some ''Billing <billing@example.com>'',
      parsed_to = Some ''user@gmail.com'',
      parsed_date = Some 1709300000000,
      parsed_html = None,
      parsed_text = Some ''Total < 100 & paid </pre><script>alert(1)</script>''\<rparr>"

definition ex_parsed_bare :: parsed_mail where
  "ex_parsed_bare =
     \<lparr>parsed_subject = Some ''Invoice #2024'', parsed_from = None, parsed_to = None,
      parsed_date = None, parsed_html = None, parsed_text = None\<rparr>"

text \<open>A message whose plain-text part is there and empty.\<close>

definition ex_parsed_blank_text :: parsed_mail where
  "ex_parsed_blank_text =
     \<lparr>parsed_subject = Some ''Invoice #2024'', parsed_from = None, parsed_to = None,
      parsed_date = Some 1709300000000, parsed_html = None, parsed_text = Some []\<rparr>"

definition ex_yahoo_body :: request_body where
  "ex_yahoo_body =
     \<lparr>body_provider = Some ''yahoo'', body_username = Some ''user@yahoo.com'',
      body_password = Some ''wrong-password'', body_subject = Some ''Invoice #2024''\<rparr>"

definition ex_yahoo_start :: request_state where
  "ex_yahoo_start =
     \<lparr>body = ex_yahoo_body, startTime = 0,
      sess = fetchEmailBySubjectOptimized
               (Own \<lparr>cfg_user = ''user@yahoo.com'', cfg_password = ''wrong-password'',
                     cfg_host = ''imap.mail.yahoo.com'', cfg_port = 993, cfg_tls = True,
                     cfg_rejectUnauthorized = False, cfg_authTimeout = 15000,
                     cfg_connTimeout = 15000\<rparr>)
               ''Invoice #2024'',
      race_timer = Some race_timeout_ms, race = Pending, response = None\<rparr>"

definition ex_constructor_body :: request_body where
  "ex_constructor_body =
     \<lparr>body_provider = Some ''constructor'', body_username = Some ''u'',
      body_password = Some ''p'', body_subject = Some ''s''\<rparr>"

definition ex_constructor_start :: request_state where
  "ex_constructor_start =
     \<lparr>body = ex_constructor_body, startTime = 0,
      sess = fetchEmailBySubjectOptimized (Inherited ''constructor'') ''s'',
      race_timer = Some race_timeout_ms, race = Pending, response = None\<rparr>"


section \<open>The rule for the HTML body as the specification words it\<close>

text \<open>
  The native HTML part when it is present and non-empty; otherwise, when a plain-text part
  exists, the wrapper document around the text; otherwise the empty string.
\<close>

definition spec_htmlBody :: "parsed_mail \<Rightarrow> string" where
  "spec_htmlBody parsed =
     (if parsed_html parsed \<noteq> None \<and> parsed_html parsed \<noteq> Some []
      then to_string (parsed_html parsed)
      else case parsed_text parsed of
             Some text \<Rightarrow> template_head @ text @ template_tail
           | None \<Rightarrow> [])"


section \<open>Preservation\<close>

lemmas session_defs =
  resolve_def reject_def clearTimeout_def imap_def on_openBox_def on_search_def
  on_parsed_def on_imap_error_def on_timeout_def

lemmas request_defs =
  request_step_def promise_race_def timer_promise_def respond_def after_await_def
  catch_error_def

lemma settled_stays:
  "settled s \<noteq> Pending \<Longrightarrow> settled (session_step now ev s) = settled s"
  by (cases ev) (auto simp: session_defs Let_def split: sum.splits promise.splits option.splits)

lemma session_inv_step:
  "session_inv s \<Longrightarrow> session_inv (session_step now ev s)"
  unfolding session_inv_def
  by (cases ev) (auto simp: session_defs Let_def split: sum.splits promise.splits option.splits)

lemma respond_None: "respond b t now r = None \<longleftrightarrow> r = Pending"
  by (simp add: respond_def split: promise.splits)

lemma request_inv_step:
  assumes "request_inv st"
  shows "request_inv (request_step now ev st)"
proof -
  let ?s' = "session_step now ev (sess st)"
  have s: "session_inv ?s'"
    using assms by (simp add: request_inv_def session_inv_step)
  show ?thesis
  proof (cases "race st")
    case Pending
    then show ?thesis
      using s assms
      by (auto simp: request_inv_def request_step_def Let_def promise_race_def
          timer_promise_def respond_None split: promise.splits option.splits)
  next
    case (Fulfilled v)
    then show ?thesis
      using s assms
      by (auto simp: request_inv_def request_step_def Let_def promise_race_def)
  next
    case (Rejected m)
    then show ?thesis
      using s assms
      by (auto simp: request_inv_def request_step_def Let_def promise_race_def)
  qed
qed

lemma body_step [simp]: "body (request_step now ev st) = body st"
  by (simp add: request_step_def Let_def)

lemma startTime_step [simp]: "startTime (request_step now ev st) = startTime st"
  by (simp add: request_step_def Let_def)

lemma request_inv_run: "request_inv st \<Longrightarrow> request_inv (run st evs)"
  by (induction st evs rule: run.induct) (simp_all add: request_inv_step)

lemma body_run [simp]: "body (run st evs) = body st"
  by (induction st evs rule: run.induct) simp_all

lemma startTime_run [simp]: "startTime (run st evs) = startTime st"
  by (induction st evs rule: run.induct) simp_all

lemma run_append: "run st (xs @ ys) = run (run st xs) ys"
  by (induction st xs rule: run.induct) simp_all

lemma awaiting_init:
  assumes "post_fetch_email t b = Awaiting st0"
  shows "request_inv st0" and "body st0 = b" and "startTime st0 = t"
    and "timeout (sess st0) = Some inner_timeout_ms"
    and "race_timer st0 = Some race_timeout_ms"
    and "response st0 = None" and "calls (sess st0) = [Connect]"
  using assms
  by (auto simp: post_fetch_email_def request_inv_def session_inv_def
      fetchEmailBySubjectOptimized_def split: if_splits option.splits)

lemma response_stays_step:
  "request_inv st \<Longrightarrow> response st = Some r \<Longrightarrow> response (request_step now ev st) = Some r"
  by (auto simp: request_inv_def request_step_def Let_def split: promise.splits)

lemma response_stays_run:
  "request_inv st \<Longrightarrow> response st = Some r \<Longrightarrow> response (run st evs) = Some r"
  by (induction st evs rule: run.induct) (simp_all add: request_inv_step response_stays_step)

lemma sess_step: "sess (request_step now ev st) = session_step now ev (sess st)"
  by (simp add: request_step_def Let_def)

lemma search_inv_step: "search_inv s \<Longrightarrow> search_inv (session_step now ev s)"
  unfolding search_inv_def
  by (cases ev) (auto simp: session_defs Let_def split: sum.splits promise.splits option.splits)

lemma never_searched_step: "never_searched s \<Longrightarrow> never_searched (session_step now ev s)"
  unfolding never_searched_def
  by (cases ev) (auto simp: session_defs Let_def split: sum.splits promise.splits option.splits)

lemma search_inv_run: "search_inv (sess st) \<Longrightarrow> search_inv (sess (run st evs))"
  by (induction st evs rule: run.induct) (simp_all add: sess_step search_inv_step)

lemma never_searched_run: "never_searched (sess st) \<Longrightarrow> never_searched (sess (run st evs))"
  by (induction st evs rule: run.induct) (simp_all add: sess_step never_searched_step)

lemma search_inv_init: "post_fetch_email t b = Awaiting st0 \<Longrightarrow> search_inv (sess st0)"
  by (auto simp: post_fetch_email_def search_inv_def fetchEmailBySubjectOptimized_def
      split: if_splits option.splits)

lemma zero_total_never_searched:
  assumes "search_inv s" and "openBox_cb s"
  shows "never_searched (session_step now (OpenBoxCb (Inr 0)) s)"
  using assms
  by (auto simp: search_inv_def never_searched_def session_defs split: promise.splits)

lemma zero_total_no_search:
  assumes "post_fetch_email t b = Awaiting st0" and "openBox_cb (sess (run st0 pre))"
  shows "filter is_search (calls (sess (run st0 (pre @ (now, OpenBoxCb (Inr 0)) # post)))) = []"
proof -
  have "search_inv (sess (run st0 pre))"
    using assms(1) by (simp add: search_inv_init search_inv_run)
  then have "never_searched (sess (request_step now (OpenBoxCb (Inr 0)) (run st0 pre)))"
    unfolding sess_step using assms(2) by (rule zero_total_never_searched)
  then have
    "never_searched (sess (run (request_step now (OpenBoxCb (Inr 0)) (run st0 pre)) post))"
    by (rule never_searched_run)
  then show ?thesis
    by (simp add: run_append never_searched_def)
qed

lemma fetch_step:
  assumes "Fetch u \<in> set (calls (session_step now ev s))"
  shows "Fetch u \<in> set (calls s) \<or>
         (\<exists>results. ev = SearchCb (Inr results) \<and> results \<noteq> [] \<and> u = last results)"
  using assms
  by (cases ev)
     (auto simp: session_defs Let_def last_conv_nth
       split: sum.splits promise.splits option.splits if_splits)

lemma fetch_run:
  assumes "Fetch u \<in> set (calls (sess (run st evs)))"
  shows "Fetch u \<in> set (calls (sess st)) \<or>
         (\<exists>now results.
            (now, SearchCb (Inr results)) \<in> set evs \<and> results \<noteq> [] \<and> u = last results)"
  using assms
proof (induction st evs rule: run.induct)
  case (1 st)
  then show ?case by simp
next
  case (2 st now ev evs)
  from "2.IH" [OF "2.prems" [simplified]]
  show ?case
  proof
    assume "Fetch u \<in> set (calls (sess (request_step now ev st)))"
    then have "Fetch u \<in> set (calls (session_step now ev (sess st)))"
      by (simp add: sess_step)
    from fetch_step [OF this] show ?thesis
      by auto
  next
    assume "\<exists>now results.
      (now, SearchCb (Inr results)) \<in> set evs \<and> results \<noteq> [] \<and> u = last results"
    then show ?thesis
      by auto
  qed
qed

lemma ex_start_awaiting: "post_fetch_email 0 ex_body = Awaiting ex_start"
  by (simp add: post_fetch_email_def ex_body_def ex_start_def getImapConfig_def configs_def
      toLowerCase_def toLowerCase_char_def)

lemma ex_opened_sess:
  "sess (run ex_start ex_opened) =
     (sess ex_start)\<lparr>on_ready := False, search_cb := True,
        calls := [Connect, OpenBox ''INBOX'' True, Search ''Invoice #2024'']\<rparr>"
  by (simp add: ex_opened_def ex_start_def request_step_def Let_def
      fetchEmailBySubjectOptimized_def session_defs)


section \<open>Selection of the message to fetch\<close>

text \<open>
  C1. When the search callback runs with a non-empty sequence of identifiers, the one
  call made on the client is the fetch of the last element of that sequence; nothing but
  the position in the sequence enters the choice. And over a whole request, whatever
  callbacks run, every fetch made is the fetch of the last element of a non-empty sequence
  that a search callback delivered.
\<close>

theorem fetch_targets_last_result:
  "(search_cb s \<and> results \<noteq> [] \<longrightarrow>
      calls (session_step now (SearchCb (Inr results)) s) = calls s @ [Fetch (last results)]) \<and>
   (post_fetch_email t b = Awaiting st0 \<and> Fetch u \<in> set (calls (sess (run st0 evs))) \<longrightarrow>
      (\<exists>now' results'.
         (now', SearchCb (Inr results')) \<in> set evs \<and> results' \<noteq> [] \<and> u = last results'))"
proof -
  have one: "calls (session_step now (SearchCb (Inr results)) s) = calls s @ [Fetch (last results)]"
    if "search_cb s" and "results \<noteq> []"
    using that by (simp add: on_search_def imap_def last_conv_nth)
  have every: "\<exists>now' results'.
         (now', SearchCb (Inr results')) \<in> set evs \<and> results' \<noteq> [] \<and> u = last results'"
    if start: "post_fetch_email t b = Awaiting st0"
      and f: "Fetch u \<in> set (calls (sess (run st0 evs)))"
  proof -
    have "Fetch u \<notin> set (calls (sess st0))"
      using awaiting_init(7) [OF start] by simp
    then show ?thesis
      using fetch_run [OF f] by blast
  qed
  show ?thesis
    using one every by blast
qed

text \<open>The scenario of the specification: the search returns 5, 12, 41 and 41 is fetched.\<close>

theorem fetch_targets_last_result_witness:
  "search_cb (sess (run ex_start ex_opened)) \<and> [5, 12, 41] \<noteq> ([] :: nat list) \<and>
   calls (session_step 310 (SearchCb (Inr [5, 12, 41])) (sess (run ex_start ex_opened))) =
     [Connect, OpenBox ''INBOX'' True, Search ''Invoice #2024'', Fetch 41] \<and>
   post_fetch_email 0 ex_body = Awaiting ex_start \<and>
   Fetch 41 \<in> set (calls (sess (run ex_start ex_searched))) \<and>
   (\<exists>now' results'.
      (now', SearchCb (Inr results')) \<in> set ex_searched \<and> results' \<noteq> [] \<and> 41 = last results')"
proof -
  have h1: "search_cb (sess (run ex_start ex_opened))"
    by (simp add: ex_opened_sess)
  have h2: "[5, 12, 41] \<noteq> ([] :: nat list)"
    by simp
  have h3: "Fetch 41 \<in> set (calls (sess (run ex_start ex_searched)))"
    by (simp add: ex_searched_def run_append sess_step ex_opened_sess session_defs)
  note a = fetch_targets_last_result [where t = 0 and b = ex_body and ?st0.0 = ex_start]
  have one: "calls (session_step 310 (SearchCb (Inr [5, 12, 41])) (sess (run ex_start ex_opened))) =
     [Connect, OpenBox ''INBOX'' True, Search ''Invoice #2024'', Fetch 41]"
    using a [where s = "sess (run ex_start ex_opened)" and results = "[5, 12, 41]" and now = 310]
      h1 by (simp add: ex_opened_sess)
  have every: "\<exists>now' results'.
      (now', SearchCb (Inr results')) \<in> set ex_searched \<and> results' \<noteq> [] \<and> 41 = last results'"
    using a [where evs = ex_searched and u = 41] ex_start_awaiting h3 by blast
  show ?thesis
    using h1 h2 one ex_start_awaiting h3 every by blast
qed


section \<open>Timeouts and single resolution\<close>

lemma race_timeout_step:
  assumes "request_inv st" and "response st = None"
  shows "response (request_step now RaceTimeoutFired st) =
           Some (timeout_response (ToFixed2 (now - startTime st)))"
    and "calls (sess (request_step now RaceTimeoutFired st)) = calls (sess st)"
    and "race_timer st = Some race_timeout_ms"
  using assms by (simp_all add: request_inv_def request_defs Let_def)

lemma inner_timeout_step:
  assumes "request_inv st" and "response st = None" and "timeout (sess st) \<noteq> None"
  shows "response (request_step now TimeoutFired st) =
           Some (timeout_response (ToFixed2 (now - startTime st)))"
    and "settled (sess (request_step now TimeoutFired st)) = Rejected ''Search timeout''"
    and "calls (sess (request_step now TimeoutFired st)) = calls (sess st) @ [End]"
  using assms
  by (auto simp: request_inv_def session_inv_def request_defs session_defs Let_def)

lemma ex_searched_state:
  "run ex_start ex_searched =
     ex_start\<lparr>sess := (sess ex_start)\<lparr>on_ready := False, f_on_message := True,
        f_on_error := True,
        calls := [Connect, OpenBox ''INBOX'' True, Search ''Invoice #2024'', Fetch 41]\<rparr>\<rparr>"
  by (simp add: ex_searched_def ex_opened_def ex_start_def request_defs Let_def
      fetchEmailBySubjectOptimized_def session_defs)

text \<open>
  C2. The inner timer is set to 85000 ms and the timer of the race to 90000 ms. As long
  as no response has been sent the race timer is pending. When it fires on a request
  without a response, the response is the timeout response, with status 408, no call is
  made on the client, and whatever callbacks run afterwards the response stays that one. When the
  inner timer fires on a request without a response, it ends the connection, rejects
  the session promise with \<open>Search timeout\<close>, and the response is the timeout response,
  with status 408, for good. In general a response, once sent, is never replaced.
\<close>

theorem timeout_resolves_once:
  assumes "post_fetch_email t b = Awaiting st0"
  shows "timeout (sess st0) = Some 85000 \<and> race_timer st0 = Some 90000 \<and>
     (response (run st0 pre) = None \<longrightarrow>
        race_timer (run st0 pre) = Some 90000 \<and>
        calls (sess (request_step now RaceTimeoutFired (run st0 pre))) =
          calls (sess (run st0 pre)) \<and>
        response (run st0 (pre @ (now, RaceTimeoutFired) # post)) =
          Some (timeout_response (ToFixed2 (now - t))) \<and>
        map_option resp_status (response (run st0 (pre @ (now, RaceTimeoutFired) # post))) =
          Some 408) \<and>
     (response (run st0 pre) = None \<and> timeout (sess (run st0 pre)) \<noteq> None \<longrightarrow>
        settled (sess (request_step now TimeoutFired (run st0 pre))) =
          Rejected ''Search timeout'' \<and>
        calls (sess (request_step now TimeoutFired (run st0 pre))) =
          calls (sess (run st0 pre)) @ [End] \<and>
        response (run st0 (pre @ (now, TimeoutFired) # post)) =
          Some (timeout_response (ToFixed2 (now - t))) \<and>
        map_option resp_status (response (run st0 (pre @ (now, TimeoutFired) # post))) =
          Some 408) \<and>
     (response (run st0 pre) = Some r \<longrightarrow> response (run st0 (pre @ post)) = Some r)"
proof -
  let ?st = "run st0 pre"
  have inv: "request_inv ?st"
    using assms by (simp add: awaiting_init request_inv_run)
  have t: "startTime ?st = t"
    using assms by (simp add: awaiting_init)
  have init: "timeout (sess st0) = Some 85000 \<and> race_timer st0 = Some 90000"
    using awaiting_init(4,5) [OF assms] by (simp add: inner_timeout_ms_def race_timeout_ms_def)
  have outer: "race_timer ?st = Some 90000 \<and>
        calls (sess (request_step now RaceTimeoutFired ?st)) = calls (sess ?st) \<and>
        response (run st0 (pre @ (now, RaceTimeoutFired) # post)) =
          Some (timeout_response (ToFixed2 (now - t))) \<and>
        map_option resp_status (response (run st0 (pre @ (now, RaceTimeoutFired) # post))) =
          Some 408"
    if none: "response ?st = None"
  proof -
    have "response (run (request_step now RaceTimeoutFired ?st) post) =
            Some (timeout_response (ToFixed2 (now - t)))"
      using race_timeout_step(1) [OF inv none, of now] t
      by (simp add: response_stays_run request_inv_step inv)
    then show ?thesis
      using race_timeout_step(2,3) [OF inv none]
      by (simp add: run_append race_timeout_ms_def timeout_response_def)
  qed
  have inner: "settled (sess (request_step now TimeoutFired ?st)) = Rejected ''Search timeout'' \<and>
        calls (sess (request_step now TimeoutFired ?st)) = calls (sess ?st) @ [End] \<and>
        response (run st0 (pre @ (now, TimeoutFired) # post)) =
          Some (timeout_response (ToFixed2 (now - t))) \<and>
        map_option resp_status (response (run st0 (pre @ (now, TimeoutFired) # post))) =
          Some 408"
    if none: "response ?st = None" and armed: "timeout (sess ?st) \<noteq> None"
  proof -
    have "response (run (request_step now TimeoutFired ?st) post) =
            Some (timeout_response (ToFixed2 (now - t)))"
      using inner_timeout_step(1) [OF inv none armed, of now] t
      by (simp add: response_stays_run request_inv_step inv)
    then show ?thesis
      using inner_timeout_step(2,3) [OF inv none armed]
      by (simp add: run_append timeout_response_def)
  qed
  have once: "response (run st0 (pre @ post)) = Some r" if "response ?st = Some r"
    using that by (simp add: run_append response_stays_run inv)
  show ?thesis
    using init outer inner once by blast
qed

text \<open>
  The search has returned, the fetch is under way and nothing more arrives: either
  timer gives the 408 response, and a message parsed afterwards and the end of the
  connection do not change it.
\<close>

theorem timeout_resolves_once_witness:
  "post_fetch_email 0 ex_body = Awaiting ex_start \<and>
   response (run ex_start ex_searched) = None \<and>
   timeout (sess (run ex_start ex_searched)) \<noteq> None \<and>
   response (run ex_start (ex_searched @ (90004, RaceTimeoutFired) #
       [(90300, ParserCb (Inr ex_parsed_plain)), (90900, ImapEnd)])) =
     Some (timeout_response (ToFixed2 90004)) \<and>
   response (run ex_start (ex_searched @ (85002, TimeoutFired) #
       [(85300, ParserCb (Inr ex_parsed_plain)), (85900, ImapEnd)])) =
     Some (timeout_response (ToFixed2 85002)) \<and>
   response (run ex_start (ex_searched @ [(85002, TimeoutFired)])) =
     Some (timeout_response (ToFixed2 85002)) \<and>
   response (run ex_start ((ex_searched @ [(85002, TimeoutFired)]) @ [(85900, ImapEnd)])) =
     Some (timeout_response (ToFixed2 85002)) \<and>
   map_option resp_status
     (response (run ex_start (ex_searched @ (90004, RaceTimeoutFired) #
        [(90300, ParserCb (Inr ex_parsed_plain)), (90900, ImapEnd)]))) = Some 408 \<and>
   map_option resp_status
     (response (run ex_start (ex_searched @ (85002, TimeoutFired) #
        [(85300, ParserCb (Inr ex_parsed_plain)), (85900, ImapEnd)]))) = Some 408"
proof -
  have h1: "response (run ex_start ex_searched) = None"
    unfolding ex_searched_state by (simp add: ex_start_def)
  have h2: "timeout (sess (run ex_start ex_searched)) \<noteq> None"
    unfolding ex_searched_state by (simp add: ex_start_def fetchEmailBySubjectOptimized_def)
  note a = timeout_resolves_once [OF ex_start_awaiting, of ex_searched]
  have outer: "response (run ex_start (ex_searched @ (90004, RaceTimeoutFired) #
       [(90300, ParserCb (Inr ex_parsed_plain)), (90900, ImapEnd)])) =
     Some (timeout_response (ToFixed2 90004))"
    using a [of 90004] h1 by simp
  have inner: "response (run ex_start (ex_searched @ (85002, TimeoutFired) #
       [(85300, ParserCb (Inr ex_parsed_plain)), (85900, ImapEnd)])) =
     Some (timeout_response (ToFixed2 85002))"
    using a [of 85002] h1 h2 by simp
  have h3: "response (run ex_start (ex_searched @ [(85002, TimeoutFired)])) =
     Some (timeout_response (ToFixed2 85002))"
    using a [of 85002 "[]"] h1 h2 by simp
  have once: "response (run ex_start ((ex_searched @ [(85002, TimeoutFired)]) @ [(85900, ImapEnd)])) =
     Some (timeout_response (ToFixed2 85002))"
    using timeout_resolves_once [OF ex_start_awaiting, of "ex_searched @ [(85002, TimeoutFired)]"] h3
    by blast
  have outer_status: "map_option resp_status
     (response (run ex_start (ex_searched @ (90004, RaceTimeoutFired) #
        [(90300, ParserCb (Inr ex_parsed_plain)), (90900, ImapEnd)]))) = Some 408"
    using a [of 90004] h1 by blast
  have inner_status: "map_option resp_status
     (response (run ex_start (ex_searched @ (85002, TimeoutFired) #
        [(85300, ParserCb (Inr ex_parsed_plain)), (85900, ImapEnd)]))) = Some 408"
    using a [of 85002] h1 h2 by blast
  show ?thesis
    using ex_start_awaiting h1 h2 outer inner h3 once outer_status inner_status by blast
qed


section \<open>The not-found outcome\<close>

lemmas response_defs =
  missing_fields_response_def invalid_provider_response_def success_response_def
  not_found_response_def timeout_response_def auth_failed_response_def error_response_def

lemma response_step_pending:
  assumes "request_inv st" and "response st = None" and "ev \<noteq> RaceTimeoutFired"
  shows "response (request_step now ev st) =
           respond (body st) (startTime st) now (settled (session_step now ev (sess st)))"
  using assms
  by (auto simp: request_inv_def request_step_def promise_race_def timer_promise_def
      respond_def Let_def split: promise.splits)

lemma resolved_null_iff:
  assumes "session_inv s" and "settled s = Pending"
  shows "settled (session_step now ev s) = Fulfilled None \<longleftrightarrow>
           ev = OpenBoxCb (Inr 0) \<and> openBox_cb s \<or>
           ev = SearchCb (Inr []) \<and> search_cb s \<or>
           ev = ImapEnd \<and> foundEmail s = None"
  using assms unfolding session_inv_def
  by (cases ev) (auto simp: session_defs Let_def split: sum.splits option.splits)

lemma respond_404_iff:
  "map_option resp_status (respond b t now p) = Some 404 \<longleftrightarrow> p = Fulfilled None"
  by (auto simp: respond_def after_await_def catch_error_def response_defs
      split: promise.splits option.splits)

lemma respond_null:
  "respond b t now (Fulfilled None) = Some (not_found_response (body_subject b))"
  by (simp add: respond_def after_await_def)

lemma ex_dropped_response:
  "response (run ex_start ex_dropped) = Some (not_found_response (Some ''Invoice #2024''))"
  by (simp add: ex_dropped_def ex_start_def ex_body_def request_defs Let_def
      fetchEmailBySubjectOptimized_def session_defs)

text \<open>
  C3, as the specification states it, fails: the connection ends right after the login,
  before the inbox is opened; the response is 404, although no mailbox reported zero
  messages and no search returned an empty sequence.
\<close>

theorem not_found_iff_counterexample:
  "post_fetch_email 0 ex_body = Awaiting ex_start \<and>
   map_option resp_status (response (run ex_start ex_dropped)) = Some 404 \<and>
   OpenBoxCb (Inr 0) \<notin> snd ` set ex_dropped \<and>
   SearchCb (Inr []) \<notin> snd ` set ex_dropped"
  using ex_start_awaiting ex_dropped_response
  by (simp add: not_found_response_def ex_dropped_def)

text \<open>
  C3, amended. On a request without a response, a callback brings the 404 response
  exactly when it is the callback of \<^verbatim>\<open>openBox\<close> reporting zero messages, or the callback
  of the search with an empty sequence, or the \<^verbatim>\<open>end\<close> event of the connection while no
  message is recorded. The 404 response is the not-found response for the subject of the
  request. When the inbox reports zero messages, the one call made on the client is
  \<^verbatim>\<open>end\<close>, and whatever callbacks run afterwards the calls made on the client hold no
  search.
\<close>

theorem not_found_cases:
  assumes "post_fetch_email t b = Awaiting st0" and "response (run st0 pre) = None"
  shows "(map_option resp_status (response (request_step now ev (run st0 pre))) = Some 404 \<longleftrightarrow>
            ev = OpenBoxCb (Inr 0) \<and> openBox_cb (sess (run st0 pre)) \<or>
            ev = SearchCb (Inr []) \<and> search_cb (sess (run st0 pre)) \<or>
            ev = ImapEnd \<and> foundEmail (sess (run st0 pre)) = None) \<and>
         (map_option resp_status (response (request_step now ev (run st0 pre))) = Some 404 \<longrightarrow>
            response (request_step now ev (run st0 pre)) =
              Some (not_found_response (body_subject b))) \<and>
         (openBox_cb (sess (run st0 pre)) \<longrightarrow>
            calls (sess (request_step now (OpenBoxCb (Inr 0)) (run st0 pre))) =
              calls (sess (run st0 pre)) @ [End] \<and>
            filter is_search
              (calls (sess (run st0 (pre @ (now, OpenBoxCb (Inr 0)) # post)))) = [])"
proof -
  let ?st = "run st0 pre"
  have inv: "request_inv ?st"
    using assms(1) by (simp add: awaiting_init request_inv_run)
  have b: "body ?st = b"
    using assms(1) by (simp add: awaiting_init)
  have sinv: "session_inv (sess ?st)" and pending: "settled (sess ?st) = Pending"
    using inv assms(2) by (auto simp: request_inv_def)
  have no_search:
    "calls (sess (request_step now (OpenBoxCb (Inr 0)) ?st)) = calls (sess ?st) @ [End] \<and>
     filter is_search (calls (sess (run st0 (pre @ (now, OpenBoxCb (Inr 0)) # post)))) = []"
    if "openBox_cb (sess ?st)"
    using that zero_total_no_search [OF assms(1) that, of now post]
    by (simp add: request_step_def Let_def session_defs split: promise.splits)
  show ?thesis
  proof (cases "ev = RaceTimeoutFired")
    case True
    have "response (request_step now ev ?st) =
            Some (timeout_response (ToFixed2 (now - startTime ?st)))"
      using inv assms(2) True by (simp add: request_inv_def request_defs Let_def)
    then show ?thesis
      using True no_search by (simp add: timeout_response_def)
  next
    case False
    have r: "response (request_step now ev ?st) =
               respond b (startTime ?st) now (settled (session_step now ev (sess ?st)))"
      using response_step_pending [OF inv assms(2) False] b by simp
    show ?thesis
      unfolding r respond_404_iff resolved_null_iff [OF sinv pending]
      using no_search resolved_null_iff [OF sinv pending, of now ev]
      by (auto simp: respond_null)
  qed
qed

text \<open>
  The inbox of the example request is opened and reports zero messages: 404, and the
  calls on the client are \<^verbatim>\<open>connect\<close>, \<^verbatim>\<open>openBox\<close>, \<^verbatim>\<open>end\<close>.
\<close>

theorem not_found_cases_witness:
  "post_fetch_email 0 ex_body = Awaiting ex_start \<and>
   response (run ex_start [(40, Ready)]) = None \<and>
   openBox_cb (sess (run ex_start [(40, Ready)])) \<and>
   response (request_step 95 (OpenBoxCb (Inr 0)) (run ex_start [(40, Ready)])) =
     Some (not_found_response (Some ''Invoice #2024'')) \<and>
   calls (sess (request_step 95 (OpenBoxCb (Inr 0)) (run ex_start [(40, Ready)]))) =
     [Connect, OpenBox ''INBOX'' True, End]"
proof -
  have st: "run ex_start [(40, Ready)] =
      ex_start\<lparr>sess := (sess ex_start)\<lparr>on_ready := False, openBox_cb := True,
        calls := [Connect, OpenBox ''INBOX'' True]\<rparr>\<rparr>"
    by (simp add: ex_start_def request_defs Let_def fetchEmailBySubjectOptimized_def
        session_defs)
  have h1: "response (run ex_start [(40, Ready)]) = None"
    unfolding st by (simp add: ex_start_def)
  have h2: "openBox_cb (sess (run ex_start [(40, Ready)]))"
    unfolding st by simp
  have c: "calls (sess (run ex_start [(40, Ready)])) = [Connect, OpenBox ''INBOX'' True]"
    unfolding st by simp
  have b: "body_subject ex_body = Some ''Invoice #2024''"
    by (simp add: ex_body_def)
  show ?thesis
    using not_found_cases [OF ex_start_awaiting h1, of 95 "OpenBoxCb (Inr 0)"]
      ex_start_awaiting h1 h2 c b
    by simp
qed


section \<open>The HTML body\<close>

lemma startsWith_append: "startsWith (t @ ys) t"
  by (induction t) simp_all

lemma str_includes_prefix: "str_includes (t @ ys) t"
  by (cases "t @ ys") (use startsWith_append [of t ys] in auto)

lemma str_includes_append: "str_includes (xs @ t @ ys) t"
  by (induction xs) (simp_all add: str_includes_prefix)

lemma htmlContent_cases:
  "htmlContent parsed =
     (if truthy (parsed_html parsed) then to_string (parsed_html parsed)
      else if truthy (parsed_text parsed)
      then template_head @ to_string (parsed_text parsed) @ template_tail
      else [])"
  by (cases "parsed_html parsed"; cases "parsed_text parsed")
     (simp_all add: htmlContent_def template_def Let_def)

text \<open>
  C4, as the specification states it, fails: for a message without an HTML part whose
  plain-text part is there and empty, the rule of the specification gives the wrapper
  document around the empty text, and the code gives the empty string.
\<close>

theorem html_body_spec_counterexample:
  "email_html (buildEmail 0 ex_parsed_blank_text) = [] \<and>
   spec_htmlBody ex_parsed_blank_text = template_head @ template_tail \<and>
   email_html (buildEmail 0 ex_parsed_blank_text) \<noteq> spec_htmlBody ex_parsed_blank_text"
  by (simp add: buildEmail_def htmlContent_def spec_htmlBody_def ex_parsed_blank_text_def
      template_head_def template_tail_def)

text \<open>
  C4, amended. The HTML body of the normalized output is the native HTML part when that
  part is present and non-empty; otherwise, when the plain-text part is present and
  non-empty, the wrapper document with the text between its fixed head and tail;
  otherwise the empty string.
\<close>

theorem html_body_rule:
  "email_html (buildEmail now parsed) =
     (if truthy (parsed_html parsed) then to_string (parsed_html parsed)
      else if truthy (parsed_text parsed)
      then template_head @ to_string (parsed_text parsed) @ template_tail
      else [])"
  by (simp add: buildEmail_def htmlContent_cases)

theorem html_body_rule_witness:
  "email_html (buildEmail 0 ex_parsed_blank_text) = [] \<and>
   email_html (buildEmail 0 ex_parsed_plain) =
     template_head @ ''Total < 100 & paid </pre><script>alert(1)</script>'' @ template_tail"
  using html_body_rule [of 0 ex_parsed_blank_text] html_body_rule [of 0 ex_parsed_plain]
  by (simp add: ex_parsed_blank_text_def ex_parsed_plain_def)

text \<open>
  C10. When the HTML body is synthesized from the plain-text part, it is the fixed head of
  the template, the text exactly as the parser delivered it, and the fixed tail: no
  character of the text is escaped or dropped, so the text occurs in the body verbatim,
  markup included.
\<close>

theorem plain_text_not_escaped:
  assumes "\<not> truthy (parsed_html parsed)" and "parsed_text parsed = Some text"
    and "text \<noteq> []"
  shows "email_html (buildEmail now parsed) = template_head @ text @ template_tail \<and>
         str_includes (email_html (buildEmail now parsed)) text"
  using assms by (simp add: buildEmail_def htmlContent_cases str_includes_append)

text \<open>
  A text holding \<open><\<close>, \<open>&\<close> and a closing \<open>pre\<close> tag followed by a script element: the
  closing tag and the opening script tag stand in the body as they are.
\<close>

theorem plain_text_not_escaped_witness:
  "\<not> truthy (parsed_html ex_parsed_plain) \<and>
   parsed_text ex_parsed_plain = Some ''Total < 100 & paid </pre><script>alert(1)</script>'' \<and>
   email_html (buildEmail 0 ex_parsed_plain) =
     template_head @ ''Total < 100 & paid </pre><script>alert(1)</script>'' @ template_tail \<and>
   str_includes (email_html (buildEmail 0 ex_parsed_plain)) ''</pre><script>''"
proof -
  have h1: "\<not> truthy (parsed_html ex_parsed_plain)"
    by (simp add: ex_parsed_plain_def)
  have h2: "parsed_text ex_parsed_plain =
      Some ''Total < 100 & paid </pre><script>alert(1)</script>''"
    by (simp add: ex_parsed_plain_def)
  have h3: "''Total < 100 & paid </pre><script>alert(1)</script>'' \<noteq> []"
    by simp
  have e: "email_html (buildEmail 0 ex_parsed_plain) =
     template_head @ ''Total < 100 & paid </pre><script>alert(1)</script>'' @ template_tail"
    using plain_text_not_escaped [OF h1 h2 h3, of 0] by simp
  have "str_includes
          (template_head @
             (''Total < 100 & paid '' @ ''</pre><script>'' @ ''alert(1)</script>'' @ template_tail))
          ''</pre><script>''"
    using str_includes_append [of "template_head @ ''Total < 100 & paid ''"
        "''</pre><script>''" "''alert(1)</script>'' @ template_tail"]
    by simp
  then have "str_includes (email_html (buildEmail 0 ex_parsed_plain)) ''</pre><script>''"
    unfolding e by simp
  then show ?thesis
    using h1 h2 e by blast
qed


section \<open>Rejected credentials\<close>

lemma ex_yahoo_awaiting: "post_fetch_email 0 ex_yahoo_body = Awaiting ex_yahoo_start"
  by (simp add: post_fetch_email_def ex_yahoo_body_def ex_yahoo_start_def getImapConfig_def
      configs_def toLowerCase_def toLowerCase_char_def)

text \<open>
  An \<^verbatim>\<open>error\<close> event of the connection whose message holds one of the two phrases, on a
  request without a response, brings the 401 response with the help text for the
  provider of the request body.
\<close>

lemma credentials_rejected:
  assumes "request_inv st" and "response st = None"
    and "str_includes err ''Invalid credentials'' \<or> str_includes err ''LOGIN failed''"
  shows "response (request_step now (ImapError err) st) =
           Some (auth_failed_response (body_provider (body st)))"
  using assms
  by (auto simp: request_inv_def session_inv_def request_defs session_defs Let_def)

lemma auth_help_gmail:
  "str_includes (auth_help (Some ''gmail'')) ''https://myaccount.google.com/apppasswords''"
  by (simp add: auth_help_def)

lemma auth_help_outlook:
  "str_includes (auth_help (Some ''outlook'')) ''https://account.microsoft.com/security''"
  by (simp add: auth_help_def)

text \<open>
  C5 at the provider \<open>yahoo\<close>: the server rejects the login, the response is 401, and its
  help text is the common prefix alone, with no address in it.
\<close>

theorem yahoo_auth_help_without_url:
  "post_fetch_email 0 ex_yahoo_body = Awaiting ex_yahoo_start \<and>
   response (run ex_yahoo_start [(900, ImapError ''LOGIN Invalid credentials'')]) =
     Some (auth_failed_response (Some ''yahoo'')) \<and>
   resp_status (auth_failed_response (Some ''yahoo'')) = 401 \<and>
   resp_help (auth_failed_response (Some ''yahoo'')) = Some ''Check your credentials. '' \<and>
   \<not> str_includes ''Check your credentials. '' ''http''"
proof -
  have inv: "request_inv ex_yahoo_start" and none: "response ex_yahoo_start = None"
    and b: "body ex_yahoo_start = ex_yahoo_body"
    using awaiting_init [OF ex_yahoo_awaiting] by simp_all
  have "str_includes ''LOGIN Invalid credentials'' ''Invalid credentials''"
    by simp
  then have
    "response (request_step 900 (ImapError ''LOGIN Invalid credentials'') ex_yahoo_start) =
       Some (auth_failed_response (body_provider ex_yahoo_body))"
    using credentials_rejected [OF inv none] b by simp
  then show ?thesis
    using ex_yahoo_awaiting
    by (simp add: ex_yahoo_body_def auth_failed_response_def auth_help_def)
qed

theorem yahoo_auth_help_without_url_witness:
  "resp_help (auth_failed_response (Some ''yahoo'')) = Some ''Check your credentials. ''"
  using yahoo_auth_help_without_url by blast



section \<open>A parsed message is found\<close>

text \<open>
  On a request without a response whose fetch is under way, the parser callback records
  the message and sends nothing; the \<^verbatim>\<open>end\<close> event that follows sends the 200 response
  with the recorded message.
\<close>

lemma parse_then_end:
  assumes "request_inv st" and "response st = None" and "f_on_message (sess st)"
  shows "response (request_step n1 (ParserCb (Inr parsed)) st) = None"
    and "foundEmail (sess (request_step n1 (ParserCb (Inr parsed)) st)) =
           Some (buildEmail n1 parsed)"
    and "response (request_step n2 ImapEnd (request_step n1 (ParserCb (Inr parsed)) st)) =
           Some (success_response (buildEmail n1 parsed) (ToFixed2 (n2 - startTime st)))"
  using assms
  by (auto simp: request_inv_def session_inv_def request_defs session_defs Let_def)

lemma found_run:
  assumes "post_fetch_email t b = Awaiting st0" and "response (run st0 pre) = None"
    and "f_on_message (sess (run st0 pre))"
  shows "response (run st0 (pre @ [(n1, ParserCb (Inr parsed)), (n2, ImapEnd)])) =
           Some (success_response (buildEmail n1 parsed) (ToFixed2 (n2 - t)))"
proof -
  have inv: "request_inv (run st0 pre)"
    using assms(1) by (simp add: awaiting_init request_inv_run)
  have t: "startTime (run st0 pre) = t"
    using assms(1) by (simp add: awaiting_init)
  show ?thesis
    using parse_then_end(3) [OF inv assms(2,3), of n2 n1 parsed] t
    by (simp add: run_append)
qed

text \<open>
  C7. The date of the normalized output is the date the parser delivered when there is
  one, and the clock at the time of the parser callback when there is none; in both
  cases the message is recorded and the response that follows the end of the connection
  is the 200 response with that message.
\<close>

theorem date_fallback:
  assumes "post_fetch_email t b = Awaiting st0" and "response (run st0 pre) = None"
    and "f_on_message (sess (run st0 pre))"
  shows "(parsed_date parsed = Some d \<longrightarrow> email_date (buildEmail now parsed) = ISOString d) \<and>
         (parsed_date parsed = None \<longrightarrow> email_date (buildEmail now parsed) = ISOString now) \<and>
         response (run st0 (pre @ [(now, ParserCb (Inr parsed)), (n2, ImapEnd)])) =
           Some (success_response (buildEmail now parsed) (ToFixed2 (n2 - t))) \<and>
         resp_status (success_response (buildEmail now parsed) (ToFixed2 (n2 - t))) = 200"
  using found_run [OF assms]
  by (simp add: buildEmail_def success_response_def)

lemma ex_searched_pending:
  "response (run ex_start ex_searched) = None" "f_on_message (sess (run ex_start ex_searched))"
  unfolding ex_searched_state by (simp_all add: ex_start_def)

text \<open>A message without a date header, parsed at 742, and one with a date header.\<close>

theorem date_fallback_witness:
  "post_fetch_email 0 ex_body = Awaiting ex_start \<and>
   response (run ex_start ex_searched) = None \<and>
   f_on_message (sess (run ex_start ex_searched)) \<and>
   parsed_date ex_parsed_bare = None \<and>
   email_date (buildEmail 742 ex_parsed_bare) = ISOString 742 \<and>
   parsed_date ex_parsed_plain = Some 1709300000000 \<and>
   email_date (buildEmail 742 ex_parsed_plain) = ISOString 1709300000000 \<and>
   response (run ex_start (ex_searched @ [(742, ParserCb (Inr ex_parsed_bare)), (815, ImapEnd)])) =
     Some (success_response (buildEmail 742 ex_parsed_bare) (ToFixed2 815))"
proof -
  have d1: "parsed_date ex_parsed_bare = None"
    by (simp add: ex_parsed_bare_def)
  have d2: "parsed_date ex_parsed_plain = Some 1709300000000"
    by (simp add: ex_parsed_plain_def)
  note a = date_fallback [OF ex_start_awaiting ex_searched_pending]
  show ?thesis
    using a [of ex_parsed_bare _ 742 815] a [of ex_parsed_plain 1709300000000 742 815]
      ex_start_awaiting ex_searched_pending d1 d2
    by simp
qed

text \<open>
  C8. For a parsed message with neither an HTML part nor a plain-text part (absent or
  empty), the HTML and the text of the normalized output are both the empty string, the
  message is recorded all the same, and the response that follows the end of the
  connection is the 200 response with it.
\<close>

theorem empty_message_found:
  assumes "post_fetch_email t b = Awaiting st0" and "response (run st0 pre) = None"
    and "f_on_message (sess (run st0 pre))"
    and "\<not> truthy (parsed_html parsed)" and "\<not> truthy (parsed_text parsed)"
  shows "email_html (buildEmail now parsed) = [] \<and> email_text (buildEmail now parsed) = [] \<and>
         response (run st0 (pre @ [(now, ParserCb (Inr parsed)), (n2, ImapEnd)])) =
           Some (success_response (buildEmail now parsed) (ToFixed2 (n2 - t))) \<and>
         resp_status (success_response (buildEmail now parsed) (ToFixed2 (n2 - t))) = 200"
proof -
  have "or_empty (parsed_text parsed) = []"
    using assms(5) by (cases "parsed_text parsed") auto
  then show ?thesis
    using found_run [OF assms(1-3)] assms(4,5)
    by (simp add: buildEmail_def htmlContent_cases success_response_def)
qed

text \<open>The message with nothing but a subject.\<close>

theorem empty_message_found_witness:
  "post_fetch_email 0 ex_body = Awaiting ex_start \<and>
   response (run ex_start ex_searched) = None \<and>
   f_on_message (sess (run ex_start ex_searched)) \<and>
   \<not> truthy (parsed_html ex_parsed_bare) \<and> \<not> truthy (parsed_text ex_parsed_bare) \<and>
   email_html (buildEmail 742 ex_parsed_bare) = [] \<and>
   email_text (buildEmail 742 ex_parsed_bare) = [] \<and>
   map_option resp_status
     (response (run ex_start (ex_searched @ [(742, ParserCb (Inr ex_parsed_bare)), (815, ImapEnd)]))) =
     Some 200"
proof -
  have h: "\<not> truthy (parsed_html ex_parsed_bare)" "\<not> truthy (parsed_text ex_parsed_bare)"
    by (simp_all add: ex_parsed_bare_def)
  show ?thesis
    using empty_message_found [OF ex_start_awaiting ex_searched_pending h, of 742 815]
      ex_start_awaiting ex_searched_pending h
    by simp
qed


section \<open>The elapsed duration in the responses\<close>

lemma respond_shapes:
  assumes "respond b t now p = Some r"
  shows "resp_status r = 200 \<and> resp_meta_duration_seconds r = Some (ToFixed2 (now - t)) \<and>
           resp_duration_seconds r = None \<or>
         resp_status r = 408 \<and> resp_duration_seconds r = Some (ToFixed2 (now - t)) \<and>
           resp_meta_duration_seconds r = None \<or>
         resp_status r \<in> {401, 404, 500} \<and> resp_meta_duration_seconds r = None \<and>
           resp_duration_seconds r = None"
  using assms
  by (auto simp: respond_def after_await_def catch_error_def response_defs
      split: promise.splits option.splits if_splits)

text \<open>
  C6, amended. A response sent before the session starts has status 400 and carries no
  duration. A response sent by the continuation of the handler is either the 200
  response, with the elapsed time under \<^verbatim>\<open>meta.duration_seconds\<close>, or the 408 response, with
  the elapsed time under \<^verbatim>\<open>duration_seconds\<close>, or a 401, 404 or 500 response, which carries
  no duration. The elapsed time is the clock at the response minus \<^verbatim>\<open>startTime\<close>,
  rendered by \<^verbatim>\<open>toFixed(2)\<close>.
\<close>

theorem duration_on_success_and_timeout:
  "(post_fetch_email t b = Responded r \<longrightarrow>
      resp_status r = 400 \<and> resp_meta_duration_seconds r = None \<and>
      resp_duration_seconds r = None) \<and>
   (post_fetch_email t b = Awaiting st0 \<and> response (run st0 pre) = None \<and>
    response (request_step now ev (run st0 pre)) = Some r \<longrightarrow>
      resp_status r = 200 \<and> resp_meta_duration_seconds r = Some (ToFixed2 (now - t)) \<and>
        resp_duration_seconds r = None \<or>
      resp_status r = 408 \<and> resp_duration_seconds r = Some (ToFixed2 (now - t)) \<and>
        resp_meta_duration_seconds r = None \<or>
      resp_status r \<in> {401, 404, 500} \<and> resp_meta_duration_seconds r = None \<and>
        resp_duration_seconds r = None)"
proof -
  have immediate: "resp_status r = 400 \<and> resp_meta_duration_seconds r = None \<and>
      resp_duration_seconds r = None"
    if "post_fetch_email t b = Responded r"
    using that
    by (auto simp: post_fetch_email_def response_defs split: if_splits option.splits)
  have awaited: "resp_status r = 200 \<and> resp_meta_duration_seconds r = Some (ToFixed2 (now - t)) \<and>
        resp_duration_seconds r = None \<or>
      resp_status r = 408 \<and> resp_duration_seconds r = Some (ToFixed2 (now - t)) \<and>
        resp_meta_duration_seconds r = None \<or>
      resp_status r \<in> {401, 404, 500} \<and> resp_meta_duration_seconds r = None \<and>
        resp_duration_seconds r = None"
    if start: "post_fetch_email t b = Awaiting st0" and none: "response (run st0 pre) = None"
      and r: "response (request_step now ev (run st0 pre)) = Some r"
  proof -
    let ?st = "run st0 pre"
    have inv: "request_inv ?st" and t: "startTime ?st = t"
      using start by (simp_all add: awaiting_init request_inv_run)
    have "\<exists>p. respond (body ?st) t now p = Some r"
    proof (cases "ev = RaceTimeoutFired")
      case True
      have "response (request_step now ev ?st) =
              respond (body ?st) t now (Rejected ''Search timeout - taking too long'')"
        using inv none True t by (simp add: request_inv_def request_defs Let_def)
      then show ?thesis
        using r by metis
    next
      case False
      show ?thesis
        using response_step_pending [OF inv none False, of now] r t by metis
    qed
    then obtain p where "respond (body ?st) t now p = Some r" ..
    then show ?thesis
      by (rule respond_shapes)
  qed
  show ?thesis
    using immediate awaited by blast
qed

text \<open>
  C6, as the specification states it, fails: the 404 response of the request whose
  connection ended early has neither \<^verbatim>\<open>meta.duration_seconds\<close> nor \<^verbatim>\<open>duration_seconds\<close>.
\<close>

theorem duration_missing_counterexample:
  "post_fetch_email 0 ex_body = Awaiting ex_start \<and>
   response (run ex_start ex_dropped) = Some (not_found_response (Some ''Invoice #2024'')) \<and>
   resp_meta_duration_seconds (not_found_response (Some ''Invoice #2024'')) = None \<and>
   resp_duration_seconds (not_found_response (Some ''Invoice #2024'')) = None"
  using ex_start_awaiting ex_dropped_response by (simp add: not_found_response_def)

text \<open>The race timer fires 90004 ms after the start of the example request.\<close>

theorem duration_on_success_and_timeout_witness:
  "post_fetch_email 0 ex_body = Awaiting ex_start \<and>
   response (run ex_start ex_searched) = None \<and>
   response (request_step 90004 RaceTimeoutFired (run ex_start ex_searched)) =
     Some (timeout_response (ToFixed2 90004)) \<and>
   resp_status (timeout_response (ToFixed2 90004)) = 408 \<and>
   resp_duration_seconds (timeout_response (ToFixed2 90004)) = Some (ToFixed2 (90004 - 0)) \<and>
   resp_meta_duration_seconds (timeout_response (ToFixed2 90004)) = None"
proof -
  have inv: "request_inv (run ex_start ex_searched)"
    using awaiting_init(1) [OF ex_start_awaiting] by (rule request_inv_run)
  have t: "startTime (run ex_start ex_searched) = 0"
    by (simp add: ex_start_def)
  have r: "response (request_step 90004 RaceTimeoutFired (run ex_start ex_searched)) =
     Some (timeout_response (ToFixed2 90004))"
    using race_timeout_step(1) [OF inv ex_searched_pending(1), of 90004] t by simp
  show ?thesis
    using duration_on_success_and_timeout [where t = 0 and b = ex_body and ?st0.0 = ex_start
        and pre = ex_searched and now = 90004 and ev = RaceTimeoutFired
        and r = "timeout_response (ToFixed2 90004)"]
      ex_start_awaiting ex_searched_pending(1) r
    by (simp add: timeout_response_def)
qed


section \<open>Validation of the request\<close>

lemma ex_constructor_awaiting:
  "post_fetch_email 0 ex_constructor_body = Awaiting ex_constructor_start"
  by (simp add: post_fetch_email_def ex_constructor_body_def ex_constructor_start_def
      getImapConfig_def configs_def Object_prototype_def toLowerCase_def toLowerCase_char_def)

text \<open>
  A request with a field absent or empty is answered at once with the 400 response for
  missing fields; a provider whose lower-case form is neither a key of the table nor a
  member of \<^verbatim>\<open>Object.prototype\<close> with the 400 response for an invalid provider. In both
  cases no session exists. A provider whose lower-case form is a key of the table starts
  the session.
\<close>

lemma missing_field_rejected:
  assumes "\<not> truthy (body_provider b) \<or> \<not> truthy (body_username b) \<or>
           \<not> truthy (body_password b) \<or> \<not> truthy (body_subject b)"
  shows "post_fetch_email t b = Responded missing_fields_response"
  using assms by (auto simp: post_fetch_email_def)

lemma unknown_provider_rejected:
  assumes "body_provider b = Some p" and "p \<noteq> []" and "truthy (body_username b)"
    and "truthy (body_password b)" and "truthy (body_subject b)"
    and "toLowerCase p \<notin> {''gmail'', ''outlook'', ''yahoo''}"
    and "toLowerCase p \<notin> set Object_prototype"
  shows "post_fetch_email t b = Responded invalid_provider_response"
  using assms by (simp add: post_fetch_email_def getImapConfig_def configs_def Let_def)

lemma known_provider_accepted:
  assumes "body_provider b = Some p" and "truthy (body_username b)"
    and "truthy (body_password b)" and "truthy (body_subject b)"
    and "toLowerCase p \<in> {''gmail'', ''outlook'', ''yahoo''}"
  shows "\<exists>st. post_fetch_email t b = Awaiting st \<and> calls (sess st) = [Connect]"
proof -
  have "p \<noteq> []"
    using assms(5) by (auto simp: toLowerCase_def)
  then show ?thesis
    using assms
    by (auto simp: post_fetch_email_def getImapConfig_def configs_def Let_def
        fetchEmailBySubjectOptimized_def)
qed

text \<open>
  C9 at the provider \<open>constructor\<close>, which is none of the three: the lookup finds the
  member inherited from \<^verbatim>\<open>Object.prototype\<close>, the guard for an invalid provider does not
  apply, and the session is started with \<^verbatim>\<open>connect()\<close> called on the client.
\<close>

theorem inherited_provider_accepted:
  "post_fetch_email 0 ex_constructor_body = Awaiting ex_constructor_start \<and>
   body_provider ex_constructor_body = Some ''constructor'' \<and>
   toLowerCase ''constructor'' \<notin> {''gmail'', ''outlook'', ''yahoo''} \<and>
   imapConfig (sess ex_constructor_start) = Inherited ''constructor'' \<and>
   calls (sess ex_constructor_start) = [Connect]"
  using ex_constructor_awaiting
  by (simp add: ex_constructor_body_def ex_constructor_start_def
      fetchEmailBySubjectOptimized_def toLowerCase_def toLowerCase_char_def)

theorem inherited_provider_accepted_witness:
  "calls (sess ex_constructor_start) = [Connect]"
  using inherited_provider_accepted by blast

end
